theory Spec2Isabelle
  imports Complex_Main
begin

section \<open>Python values and the built-in operations the scripts use\<close>

text \<open>
  Both scripts work on what \<^verbatim>\<open>json.loads\<close> returns: \<^verbatim>\<open>None\<close>, booleans, integers,
  floats, strings, lists and dictionaries. A dictionary is kept as the list of its items
  in insertion order (no key occurs twice); \<open>map_of\<close> looks a key up. A string is a
  list of characters, one \<open>char\<close> per character of the Python string. A float is
  kept as a real number: the scripts only test it for zero and pass it on.
\<close>

datatype json =
    JNull
  | JBool bool
  | JInt int
  | JFloat real
  | JStr string
  | JArr "json list"
  | JObj "(string \<times> json) list"

datatype error =
    JSONDecodeError
  | AttributeError
  | TypeError
  | KeyError string
  | FileNotFoundError

text \<open>Truth value of a Python object, as \<^verbatim>\<open>or\<close> and \<^verbatim>\<open>not\<close> test it.\<close>

fun truthy :: "json \<Rightarrow> bool" where
  "truthy JNull = False"
| "truthy (JBool b) = b"
| "truthy (JInt n) = (n \<noteq> 0)"
| "truthy (JFloat x) = (x \<noteq> 0)"
| "truthy (JStr s) = (s \<noteq> [])"
| "truthy (JArr xs) = (xs \<noteq> [])"
| "truthy (JObj kvs) = (kvs \<noteq> [])"

text \<open>\<^verbatim>\<open>a or b\<close>: the first operand when it is true, the second otherwise.\<close>

definition py_or :: "json \<Rightarrow> json \<Rightarrow> json" where
  "py_or a b = (if truthy a then a else b)"

text \<open>\<^verbatim>\<open>d.get(k)\<close>: only a dictionary has the method; a missing key gives \<^verbatim>\<open>None\<close>.\<close>

fun dict_get :: "json \<Rightarrow> string \<Rightarrow> error + json" where
  "dict_get (JObj kvs) k = Inr (case map_of kvs k of None \<Rightarrow> JNull | Some v \<Rightarrow> v)"
| "dict_get _ k = Inl AttributeError"

text \<open>\<^verbatim>\<open>d[k]\<close> with a string key: a missing key raises \<^verbatim>\<open>KeyError\<close>, and a value that
  is not a dictionary cannot be indexed by a string.\<close>

fun getitem :: "json \<Rightarrow> string \<Rightarrow> error + json" where
  "getitem (JObj kvs) k = (case map_of kvs k of None \<Rightarrow> Inl (KeyError k) | Some v \<Rightarrow> Inr v)"
| "getitem _ k = Inl TypeError"

text \<open>\<^verbatim>\<open>for x in v\<close>: the elements of a list, the characters of a string, the keys of a
  dictionary; anything else is not iterable.\<close>

fun iter :: "json \<Rightarrow> error + json list" where
  "iter (JArr xs) = Inr xs"
| "iter (JStr s) = Inr (map (\<lambda>c. JStr [c]) s)"
| "iter (JObj kvs) = Inr (map (\<lambda>kv. JStr (fst kv)) kvs)"
| "iter _ = Inl TypeError"

text \<open>\<^verbatim>\<open>v[:n]\<close> followed by iteration: lists and strings can be sliced, and a
  slice of a string iterates over its characters. Slicing a dictionary raises as well
  (\<^verbatim>\<open>TypeError\<close> up to Python 3.11, \<^verbatim>\<open>KeyError\<close> from 3.12 on); the model has
  \<^verbatim>\<open>TypeError\<close> for it.\<close>

fun slice_upto :: "json \<Rightarrow> nat \<Rightarrow> error + json list" where
  "slice_upto (JArr xs) n = Inr (take n xs)"
| "slice_upto (JStr s) n = Inr (map (\<lambda>c. JStr [c]) (take n s))"
| "slice_upto _ n = Inl TypeError"

text \<open>\<^verbatim>\<open>sep.join(parts)\<close>: every part has to be a string.\<close>

fun as_strs :: "json list \<Rightarrow> error + string list" where
  "as_strs [] = Inr []"
| "as_strs (JStr s # rest) =
     (case as_strs rest of Inl e \<Rightarrow> Inl e | Inr ss \<Rightarrow> Inr (s # ss))"
| "as_strs (_ # rest) = Inl TypeError"

fun join :: "string \<Rightarrow> string list \<Rightarrow> string" where
  "join sep [] = []"
| "join sep [s] = s"
| "join sep (s # ss) = s @ sep @ join sep ss"

definition str_join :: "string \<Rightarrow> json list \<Rightarrow> error + string" where
  "str_join sep parts = (case as_strs parts of Inl e \<Rightarrow> Inl e | Inr ss \<Rightarrow> Inr (join sep ss))"

section \<open>generate\_prompt\_dataset.py\<close>

definition SOURCE :: string where
  "SOURCE = ''memory-bank/sprints/sprint119_template_routing/metadata_canonical_db.jsonl''"

definition OUT :: string where
  "OUT = ''memory-bank/sprints/sprint119_template_routing/metadata_prompt_dataset.jsonl''"

definition FORMAT_HINTS :: "(string \<times> string list) list" where
  "FORMAT_HINTS =
     [(''landscape'', [''format:landscape'', ''desktop layout'', ''wide hero'']),
      (''portrait'', [''format:portrait'', ''mobile layout'', ''vertical video'']),
      (''square'', [''format:square'', ''social square'', ''1:1 canvas''])]"

definition VARIANTS_PER_TEMPLATE :: nat where
  "VARIANTS_PER_TEMPLATE = 4"

text \<open>\<^verbatim>\<open>FORMAT_HINTS.get(fmt, [])\<close>: the key has to be hashable, which lists and
  dictionaries are not; every other value that is not one of the three keys gives \<open>[]\<close>.\<close>

fun FORMAT_HINTS_get :: "json \<Rightarrow> error + string list" where
  "FORMAT_HINTS_get (JStr s) = Inr (case map_of FORMAT_HINTS s of None \<Rightarrow> [] | Some hs \<Rightarrow> hs)"
| "FORMAT_HINTS_get (JArr xs) = Inl TypeError"
| "FORMAT_HINTS_get (JObj kvs) = Inl TypeError"
| "FORMAT_HINTS_get _ = Inr []"

text \<open>Line 19: \<^verbatim>\<open>formats = data.get('supported_formats') or ['landscape']\<close>.\<close>

definition select_formats :: "json \<Rightarrow> error + json" where
  "select_formats data =
     (case dict_get data ''supported_formats'' of
        Inl e \<Rightarrow> Inl e
      | Inr sf \<Rightarrow> Inr (py_or sf (JArr [JStr ''landscape''])))"

text \<open>Line 20: \<^verbatim>\<open>phrases = data.get('user_phrases') or data.get('keywords') or []\<close>;
  the second lookup happens only when the first value is false.\<close>

definition select_phrases :: "json \<Rightarrow> error + json" where
  "select_phrases data =
     (case dict_get data ''user_phrases'' of
        Inl e \<Rightarrow> Inl e
      | Inr up \<Rightarrow>
          if truthy up then Inr up
          else (case dict_get data ''keywords'' of
                  Inl e \<Rightarrow> Inl e
                | Inr kw \<Rightarrow> Inr (py_or kw (JArr []))))"

text \<open>Line 23: \<^verbatim>\<open>[hint for fmt in formats for hint in FORMAT_HINTS.get(fmt, [])]\<close>,
  over the elements that iterating \<^verbatim>\<open>formats\<close> gives.\<close>

fun collect_hints :: "json list \<Rightarrow> error + string list" where
  "collect_hints [] = Inr []"
| "collect_hints (fmt # fmts) =
     (case FORMAT_HINTS_get fmt of
        Inl e \<Rightarrow> Inl e
      | Inr hs \<Rightarrow>
          (case collect_hints fmts of Inl e \<Rightarrow> Inl e | Inr rest \<Rightarrow> Inr (hs @ rest)))"

text \<open>Lines 23 and 24: the combined hint list of a value of \<^verbatim>\<open>formats\<close>, with the
  fallback \<^verbatim>\<open>hints or ['generic format']\<close>.\<close>

definition combined_hints :: "json \<Rightarrow> error + string list" where
  "combined_hints formats =
     (case iter formats of
        Inl e \<Rightarrow> Inl e
      | Inr fmts \<Rightarrow>
          (case collect_hints fmts of
             Inl e \<Rightarrow> Inl e
           | Inr hints \<Rightarrow> Inr (if hints \<noteq> [] then hints else [''generic format''])))"

text \<open>Lines 26 to 36: the body of the inner loop for one index and one phrase. The
  dictionary literal evaluates its values in the order written.\<close>

definition make_example :: "json \<Rightarrow> string list \<Rightarrow> nat \<Rightarrow> json \<Rightarrow> error + json" where
  "make_example data hints idx phrase =
     (let prompt_parts = (if idx < length hints then [JStr (hints ! idx)] else []) @ [phrase]
      in case str_join '' '' prompt_parts of
           Inl e \<Rightarrow> Inl e
         | Inr prompt \<Rightarrow>
      (case getitem data ''template_id'' of
           Inl e \<Rightarrow> Inl e
         | Inr tid \<Rightarrow>
      (case getitem data ''template_name'' of
           Inl e \<Rightarrow> Inl e
         | Inr tname \<Rightarrow>
      (case dict_get data ''db_id'' of
           Inl e \<Rightarrow> Inl e
         | Inr dbid \<Rightarrow>
             Inr (JObj [(''prompt'', JStr prompt),
                        (''expected_template_id'', tid),
                        (''expected_template_name'', tname),
                        (''db_id'', dbid)])))))"

text \<open>Line 25: the loop over \<^verbatim>\<open>enumerate(phrases[:VARIANTS_PER_TEMPLATE])\<close>, appending
  to \<^verbatim>\<open>examples\<close>; an exception ends it.\<close>

fun expand_phrases ::
  "json \<Rightarrow> string list \<Rightarrow> nat \<Rightarrow> json list \<Rightarrow> json list \<Rightarrow> error + json list" where
  "expand_phrases data hints idx [] examples = Inr examples"
| "expand_phrases data hints idx (phrase # rest) examples =
     (case make_example data hints idx phrase of
        Inl e \<Rightarrow> Inl e
      | Inr ex \<Rightarrow> expand_phrases data hints (Suc idx) rest (examples @ [ex]))"

text \<open>Lines 19 to 36: what one decoded line does to \<^verbatim>\<open>examples\<close>.\<close>

definition process_record :: "json \<Rightarrow> json list \<Rightarrow> error + json list" where
  "process_record data examples =
     (case select_formats data of
        Inl e \<Rightarrow> Inl e
      | Inr formats \<Rightarrow>
     (case select_phrases data of
        Inl e \<Rightarrow> Inl e
      | Inr phrases \<Rightarrow>
          if \<not> truthy phrases then Inr examples
          else
     (case combined_hints formats of
        Inl e \<Rightarrow> Inl e
      | Inr hints \<Rightarrow>
     (case slice_upto phrases VARIANTS_PER_TEMPLATE of
        Inl e \<Rightarrow> Inl e
      | Inr ps \<Rightarrow> expand_phrases data hints 0 ps examples))))"

text \<open>
  The library functions the scripts call are parameters of the model: \<open>loads\<close> is
  \<^verbatim>\<open>json.loads\<close> (\<open>None\<close> when it raises), \<open>dumps\<close> is \<^verbatim>\<open>json.dumps\<close> with
  \<^verbatim>\<open>ensure_ascii=False\<close>, \<open>splitlines\<close> is \<^verbatim>\<open>str.splitlines\<close>.
\<close>

record pylib =
  loads :: "string \<Rightarrow> json option"
  dumps :: "json \<Rightarrow> string"
  splitlines :: "string \<Rightarrow> string list"

text \<open>Lines 17 to 36: the loop over the lines of the source file.\<close>

fun read_loop :: "pylib \<Rightarrow> string list \<Rightarrow> json list \<Rightarrow> error + json list" where
  "read_loop L [] examples = Inr examples"
| "read_loop L (line # rest) examples =
     (case loads L line of
        None \<Rightarrow> Inl JSONDecodeError
      | Some data \<Rightarrow>
          (case process_record data examples of
             Inl e \<Rightarrow> Inl e
           | Inr examples' \<Rightarrow> read_loop L rest examples'))"

text \<open>
  The files are a map from path to content. \<^verbatim>\<open>read_text\<close> of a path that is not
  there raises; \<^verbatim>\<open>open('w')\<close> empties the file, and each \<^verbatim>\<open>write\<close> appends to it.
  Writing is taken to succeed.
\<close>

type_synonym files = "string \<rightharpoonup> string"

definition write_lines :: "pylib \<Rightarrow> json list \<Rightarrow> string" where
  "write_lines L examples = concat (map (\<lambda>ex. dumps L ex @ [CHR 0x0A]) examples)"

text \<open>\<^verbatim>\<open>main\<close>: the result is the error that ended the run or the number of examples
  it reports, together with the files it leaves behind.\<close>

definition main :: "pylib \<Rightarrow> files \<Rightarrow> (error + nat) \<times> files" where
  "main L fs =
     (case fs SOURCE of
        None \<Rightarrow> (Inl FileNotFoundError, fs)
      | Some text \<Rightarrow>
          (case read_loop L (splitlines L text) [] of
             Inl e \<Rightarrow> (Inl e, fs)
           | Inr examples \<Rightarrow>
               (Inr (length examples), fs(OUT \<mapsto> write_lines L examples))))"

section \<open>prepare\_finetune.py\<close>

definition PROMPTS :: string where
  "PROMPTS = ''memory-bank/sprints/sprint119_template_routing/metadata_prompt_dataset.jsonl''"

definition OUTPUT :: string where
  "OUTPUT = ''memory-bank/sprints/sprint119_template_routing/metadata_finetune_dataset.jsonl''"

definition prefix_system :: string where
  "prefix_system =
     ''You are a template routing assistant. Given user intent, respond with the best template id.''"

text \<open>Lines 13 to 21: the dictionary \<^verbatim>\<open>record\<close> built from one decoded example.\<close>

definition finetune_record :: "json \<Rightarrow> error + json" where
  "finetune_record example =
     (case getitem example ''prompt'' of
        Inl e \<Rightarrow> Inl e
      | Inr prompt \<Rightarrow>
     (case getitem example ''expected_template_id'' of
        Inl e \<Rightarrow> Inl e
      | Inr template_id \<Rightarrow>
          Inr (JObj [(''messages'',
                 JArr [JObj [(''role'', JStr ''system''), (''content'', JStr prefix_system)],
                       JObj [(''role'', JStr ''user''), (''content'', prompt)],
                       JObj [(''role'', JStr ''assistant''), (''content'', template_id)]])])))"

text \<open>Lines 11 to 22: the loop over the lines of the prompt file; \<open>out\<close> is what has
  been written to the output file so far, and stays there when an exception ends the loop.\<close>

fun finetune_loop :: "pylib \<Rightarrow> string list \<Rightarrow> string \<Rightarrow> (error + unit) \<times> string" where
  "finetune_loop L [] out = (Inr (), out)"
| "finetune_loop L (line # rest) out =
     (case loads L line of
        None \<Rightarrow> (Inl JSONDecodeError, out)
      | Some example \<Rightarrow>
          (case finetune_record example of
             Inl e \<Rightarrow> (Inl e, out)
           | Inr record \<Rightarrow> finetune_loop L rest (out @ dumps L record @ [CHR 0x0A])))"

text \<open>The script: the output file is opened, and so emptied, before the prompt file is
  read.\<close>

definition prepare_finetune :: "pylib \<Rightarrow> files \<Rightarrow> (error + unit) \<times> files" where
  "prepare_finetune L fs =
     (let fs1 = fs(OUTPUT \<mapsto> [])
      in case fs1 PROMPTS of
           None \<Rightarrow> (Inl FileNotFoundError, fs1)
         | Some text \<Rightarrow>
             (case finetune_loop L (splitlines L text) [] of
                (r, out) \<Rightarrow> (r, fs1(OUTPUT \<mapsto> out))))"

section \<open>Derived notions used in the statements and proofs\<close>

text \<open>The hint list lines 19, 23 and 24 compute for a record.\<close>

definition record_hints :: "json \<Rightarrow> error + string list" where
  "record_hints data =
     (case select_formats data of Inl e \<Rightarrow> Inl e | Inr formats \<Rightarrow> combined_hints formats)"

text \<open>The value \<^verbatim>\<open>d.get(k)\<close> has for the items \<open>kvs\<close> of a dictionary.\<close>

definition lookup :: "(string \<times> json) list \<Rightarrow> string \<Rightarrow> json" where
  "lookup kvs k = (case map_of kvs k of None \<Rightarrow> JNull | Some v \<Rightarrow> v)"

text \<open>Closed forms of what the inner loop builds, for the proofs below: the prompt of
  a phrase at an index, the example dictionary, and the hints of a format name.\<close>

definition hinted :: "string list \<Rightarrow> nat \<Rightarrow> string \<Rightarrow> string" where
  "hinted hints idx phrase =
     (if idx < length hints then hints ! idx @ '' '' @ phrase else phrase)"

definition example_of :: "(string \<times> json) list \<Rightarrow> string list \<Rightarrow> nat \<times> string \<Rightarrow> json" where
  "example_of kvs hints ip =
     JObj [(''prompt'', JStr (hinted hints (fst ip) (snd ip))),
           (''expected_template_id'', lookup kvs ''template_id''),
           (''expected_template_name'', lookup kvs ''template_name''),
           (''db_id'', lookup kvs ''db_id'')]"

definition hints_of_name :: "string \<Rightarrow> string list" where
  "hints_of_name f = (case map_of FORMAT_HINTS f of None \<Rightarrow> [] | Some hs \<Rightarrow> hs)"

text \<open>Sample inputs for the instances below.\<close>

definition hero_record :: "(string \<times> json) list" where
  "hero_record =
     [(''template_id'', JStr ''t1''), (''template_name'', JStr ''Hero''),
      (''supported_formats'', JArr [JStr ''square'']),
      (''user_phrases'', JArr [JStr ''make a square banner''])]"

definition cinema_record :: "(string \<times> json) list" where
  "cinema_record =
     [(''template_id'', JStr ''t2''), (''template_name'', JStr ''Promo''),
      (''supported_formats'', JArr [JStr ''cinema'']),
      (''user_phrases'', JArr [JStr ''launch teaser'', JStr ''product reveal''])]"

definition nameless_record :: "(string \<times> json) list" where
  "nameless_record =
     [(''template_id'', JStr ''t3''), (''user_phrases'', JArr [JStr ''pricing table''])]"

definition plain_record :: "(string \<times> json) list" where
  "plain_record =
     [(''template_id'', JStr ''t5''), (''template_name'', JStr ''Plain''),
      (''supported_formats'', JArr []),
      (''user_phrases'',
       JArr [JStr ''intro'', JStr ''outro'', JStr ''logo sting'', JStr ''lower third'',
             JStr ''credits''])]"

definition silent_record :: "(string \<times> json) list" where
  "silent_record = [(''template_id'', JStr ''t4''), (''user_phrases'', JArr [])]"

text \<open>The dictionary of lines 15 to 21 for a given prompt and template id, for the
  proofs below, and sample inputs of the formatter.\<close>

definition conversation :: "json \<Rightarrow> json \<Rightarrow> json" where
  "conversation prompt template_id =
     JObj [(''messages'',
        JArr [JObj [(''role'', JStr ''system''), (''content'', JStr prefix_system)],
              JObj [(''role'', JStr ''user''), (''content'', prompt)],
              JObj [(''role'', JStr ''assistant''), (''content'', template_id)]])]"

definition banner_example :: "(string \<times> json) list" where
  "banner_example =
     [(''prompt'', JStr ''format:square make a square banner''),
      (''expected_template_id'', JStr ''t1''),
      (''expected_template_name'', JStr ''Hero''), (''db_id'', JNull)]"

definition teaser_example :: "(string \<times> json) list" where
  "teaser_example =
     [(''prompt'', JStr ''generic format launch teaser''),
      (''expected_template_id'', JStr ''t2''),
      (''expected_template_name'', JStr ''Promo''), (''db_id'', JInt 7)]"

definition finetune_lib :: pylib where
  "finetune_lib =
     \<lparr>loads = (\<lambda>s. if s = ''P'' then Some (JObj banner_example)
                    else if s = ''Q'' then Some (JObj teaser_example)
                    else None),
      dumps = (\<lambda>j. if j = conversation (JStr ''format:square make a square banner'') (JStr ''t1'')
                    then ''banner->t1''
                    else if j = conversation (JStr ''generic format launch teaser'') (JStr ''t2'')
                    then ''teaser->t2''
                    else ''other''),
      splitlines = (\<lambda>s. map (\<lambda>c. [c]) s)\<rparr>"

definition sample_lib :: pylib where
  "sample_lib =
     \<lparr>loads = (\<lambda>s. if s = ''A'' then Some (JObj hero_record)
                    else if s = ''B'' then Some (JObj nameless_record)
                    else if s = ''C'' then Some (JObj silent_record)
                    else None),
      dumps = (\<lambda>j. ''{}''),
      splitlines = (\<lambda>s. map (\<lambda>c. [c]) s)\<rparr>"

section \<open>The inner loop on well-typed records\<close>

lemma make_example_str:
  assumes "map_of kvs ''template_id'' \<noteq> None" and "map_of kvs ''template_name'' \<noteq> None"
  shows "make_example (JObj kvs) hints idx (JStr p) = Inr (example_of kvs hints (idx, p))"
  using assms
  by (auto simp: make_example_def str_join_def example_of_def hinted_def lookup_def)

lemma expand_phrases_strs:
  assumes "map_of kvs ''template_id'' \<noteq> None" and "map_of kvs ''template_name'' \<noteq> None"
  shows "expand_phrases (JObj kvs) hints idx (map JStr ps) examples =
           Inr (examples @ map (example_of kvs hints) (enumerate idx ps))"
proof (induction ps arbitrary: idx examples)
  case Nil
  show ?case by simp
next
  case (Cons p ps)
  show ?case
    by (simp add: make_example_str [OF assms] Cons.IH)
qed

lemma process_record_strs:
  assumes "select_phrases (JObj kvs) = Inr (JArr (map JStr phrases))"
    and "record_hints (JObj kvs) = Inr hints"
    and "map_of kvs ''template_id'' \<noteq> None" and "map_of kvs ''template_name'' \<noteq> None"
  shows "process_record (JObj kvs) examples =
           Inr (examples @ map (example_of kvs hints) (enumerate 0 (take 4 phrases)))"
proof (cases "phrases = []")
  case True
  with assms(1) show ?thesis
    by (simp add: process_record_def select_formats_def)
next
  case False
  from assms(2) obtain formats where f: "select_formats (JObj kvs) = Inr formats"
      and h: "combined_hints formats = Inr hints"
    by (auto simp: record_hints_def split: sum.splits)
  from False assms(1) f h show ?thesis
    by (simp add: process_record_def VARIANTS_PER_TEMPLATE_def take_map
        expand_phrases_strs [OF assms(3,4)])
qed

lemma getitem_example_of:
  "getitem (example_of kvs hints ip) ''prompt'' = Inr (JStr (hinted hints (fst ip) (snd ip)))"
  "getitem (example_of kvs hints ip) ''expected_template_id'' = Inr (lookup kvs ''template_id'')"
  by (simp_all add: example_of_def)

lemma nth_examples:
  assumes "i < length phrases" and "i < 4"
  shows "map (example_of kvs hints) (enumerate 0 (take 4 phrases)) ! i =
           example_of kvs hints (i, phrases ! i)"
  using assms by (simp add: nth_enumerate_eq)

lemma process_record_prompts:
  assumes "select_phrases (JObj kvs) = Inr (JArr (map JStr phrases))"
    and "record_hints (JObj kvs) = Inr hints"
    and "map_of kvs ''template_id'' \<noteq> None" and "map_of kvs ''template_name'' \<noteq> None"
  shows "\<exists>exs. process_record (JObj kvs) examples = Inr (examples @ exs) \<and>
           length exs = min 4 (length phrases) \<and>
           (\<forall>i < length exs.
              getitem (exs ! i) ''prompt'' = Inr (JStr (hinted hints i (phrases ! i))))"
proof -
  let ?exs = "map (example_of kvs hints) (enumerate 0 (take 4 phrases))"
  have run: "process_record (JObj kvs) examples = Inr (examples @ ?exs)"
    by (rule process_record_strs [OF assms])
  have len: "length ?exs = min 4 (length phrases)"
    by simp
  have "getitem (?exs ! i) ''prompt'' = Inr (JStr (hinted hints i (phrases ! i)))"
    if "i < length ?exs" for i
  proof -
    from that have "i < length phrases" and "i < 4" by simp_all
    then show ?thesis
      by (simp only: nth_examples getitem_example_of fst_conv snd_conv)
  qed
  with run len show ?thesis by blast
qed

lemma hinted_empty:
  "hinted hints i p = [] \<longleftrightarrow> p = [] \<and> length hints \<le> i"
  by (auto simp: hinted_def)

text \<open>The hints are computed only on the path that is not skipped; \<open>record_hints\<close> is
  the value they have there.\<close>

lemma process_record_record_hints:
  "process_record data examples =
     (case select_phrases data of
        Inl e \<Rightarrow> Inl e
      | Inr phrases \<Rightarrow>
          if \<not> truthy phrases then Inr examples
          else (case record_hints data of
                  Inl e \<Rightarrow> Inl e
                | Inr hints \<Rightarrow>
                    (case slice_upto phrases VARIANTS_PER_TEMPLATE of
                       Inl e \<Rightarrow> Inl e
                     | Inr ps \<Rightarrow> expand_phrases data hints 0 ps examples)))"
  by (cases data)
    (auto simp: process_record_def record_hints_def select_formats_def select_phrases_def
      split: sum.splits)

section \<open>Hints\<close>

lemma collect_hints_strs:
  "collect_hints (map JStr fmts) = Inr (concat (map hints_of_name fmts))"
  by (induction fmts) (simp_all add: hints_of_name_def)

lemma record_hints_strs:
  assumes "map_of kvs ''supported_formats'' = Some (JArr (map JStr fmts))" and "fmts \<noteq> []"
  shows "record_hints (JObj kvs) =
           Inr (if concat (map hints_of_name fmts) \<noteq> [] then concat (map hints_of_name fmts)
                else [''generic format''])"
  using assms
  by (simp add: record_hints_def select_formats_def py_or_def combined_hints_def
      collect_hints_strs)

lemma record_hints_default:
  assumes "map_of kvs ''supported_formats'' = None \<or>
           map_of kvs ''supported_formats'' = Some (JArr [])"
  shows "record_hints (JObj kvs) = Inr [''format:landscape'', ''desktop layout'', ''wide hero'']"
  using assms
  by (auto simp: record_hints_def select_formats_def py_or_def combined_hints_def
      FORMAT_HINTS_def)

lemma hints_of_name_unknown:
  "f \<notin> {''landscape'', ''portrait'', ''square''} \<Longrightarrow> hints_of_name f = []"
  by (simp add: hints_of_name_def FORMAT_HINTS_def)

lemma record_hints_nonempty:
  assumes "record_hints (JObj kvs) = Inr hints"
  shows "hints \<noteq> []"
  using assms
  by (auto simp: record_hints_def combined_hints_def split: sum.splits if_splits)

section \<open>Phrase selection, skipping and aborting\<close>

lemma select_phrases_user:
  "map_of kvs ''user_phrases'' = Some up \<Longrightarrow> truthy up \<Longrightarrow> select_phrases (JObj kvs) = Inr up"
  by (simp add: select_phrases_def)

lemma select_phrases_keywords:
  assumes "map_of kvs ''user_phrases'' = None \<or> map_of kvs ''user_phrases'' = Some (JArr [])"
    and "map_of kvs ''keywords'' = Some kw" and "truthy kw"
  shows "select_phrases (JObj kvs) = Inr kw"
  using assms by (auto simp: select_phrases_def py_or_def)

lemma select_phrases_none:
  assumes "map_of kvs ''user_phrases'' = None \<or> map_of kvs ''user_phrases'' = Some (JArr [])"
    and "map_of kvs ''keywords'' = None \<or> map_of kvs ''keywords'' = Some (JArr [])"
  shows "select_phrases (JObj kvs) = Inr (JArr [])"
  using assms by (auto simp: select_phrases_def py_or_def)

lemma process_record_skip:
  assumes "select_phrases (JObj kvs) = Inr phrases" and "\<not> truthy phrases"
  shows "process_record (JObj kvs) examples = Inr examples"
  using assms by (simp add: process_record_def select_formats_def)

lemma make_example_cong:
  assumes "map_of kvs' ''template_id'' = map_of kvs ''template_id''"
    and "map_of kvs' ''template_name'' = map_of kvs ''template_name''"
    and "map_of kvs' ''db_id'' = map_of kvs ''db_id''"
  shows "make_example (JObj kvs') hints idx phrase = make_example (JObj kvs) hints idx phrase"
  using assms by (simp add: make_example_def split: sum.splits)

lemma expand_phrases_cong:
  assumes "map_of kvs' ''template_id'' = map_of kvs ''template_id''"
    and "map_of kvs' ''template_name'' = map_of kvs ''template_name''"
    and "map_of kvs' ''db_id'' = map_of kvs ''db_id''"
  shows "expand_phrases (JObj kvs') hints idx ps examples =
           expand_phrases (JObj kvs) hints idx ps examples"
  by (induction ps arbitrary: idx examples)
    (simp_all add: make_example_cong [OF assms] split: sum.splits)

lemma expand_phrases_missing:
  assumes "map_of kvs ''template_id'' = None \<or> map_of kvs ''template_name'' = None"
  shows "\<exists>e. expand_phrases (JObj kvs) hints idx (p # ps) examples = Inl e"
  using assms by (auto simp: make_example_def split: sum.splits option.splits)

lemma slice_upto_truthy:
  assumes "truthy phrases" and "slice_upto phrases VARIANTS_PER_TEMPLATE = Inr ps"
  shows "ps \<noteq> []"
  using assms by (cases phrases) (auto simp: VARIANTS_PER_TEMPLATE_def)

lemma process_record_missing:
  assumes "select_phrases (JObj kvs) = Inr phrases" and "truthy phrases"
    and "map_of kvs ''template_id'' = None \<or> map_of kvs ''template_name'' = None"
  shows "\<exists>e. process_record (JObj kvs) examples = Inl e"
proof (cases "process_record (JObj kvs) examples")
  case (Inl e)
  then show ?thesis by blast
next
  case (Inr exs)
  with assms(1,2) obtain hints ps where
      "slice_upto phrases VARIANTS_PER_TEMPLATE = Inr ps"
      and run: "expand_phrases (JObj kvs) hints 0 ps examples = Inr exs"
    by (auto simp: process_record_def split: sum.splits)
  with assms(2) obtain p rest where "ps = p # rest"
    using slice_upto_truthy by (cases ps) auto
  with run expand_phrases_missing [OF assms(3), of hints 0 p rest examples]
  show ?thesis by simp
qed

text \<open>On a well-typed record the exception is the \<^verbatim>\<open>KeyError\<close> of the first missing
  field.\<close>

lemma process_record_missing_key:
  assumes "select_phrases (JObj kvs) = Inr (JArr (map JStr phrases))" and "phrases \<noteq> []"
    and "record_hints (JObj kvs) = Inr hints"
    and "map_of kvs ''template_id'' = None \<or> map_of kvs ''template_name'' = None"
  shows "process_record (JObj kvs) examples =
           Inl (KeyError (if map_of kvs ''template_id'' = None then ''template_id''
                          else ''template_name''))"
proof -
  from assms(3) obtain formats where f: "select_formats (JObj kvs) = Inr formats"
      and h: "combined_hints formats = Inr hints"
    by (auto simp: record_hints_def split: sum.splits)
  from assms(2) obtain p ps where ps: "phrases = p # ps"
    by (cases phrases) auto
  show ?thesis
    using assms(1,4) f h unfolding ps
    by (auto simp: process_record_def VARIANTS_PER_TEMPLATE_def make_example_def str_join_def
        split: option.splits)
qed

lemma read_loop_aborts:
  assumes "line \<in> set lines"
    and "loads L line = None \<or>
         (\<exists>data. loads L line = Some data \<and> (\<forall>exs. \<exists>e. process_record data exs = Inl e))"
  shows "\<exists>e. read_loop L lines examples = Inl e"
  using assms(1)
proof (induction lines arbitrary: examples)
  case Nil
  then show ?case by simp
next
  case (Cons l ls)
  show ?case
  proof (cases "l = line")
    case True
    from assms(2) show ?thesis
    proof
      assume "loads L line = None"
      with True show ?thesis by simp
    next
      assume "\<exists>data. loads L line = Some data \<and> (\<forall>exs. \<exists>e. process_record data exs = Inl e)"
      then obtain data where d: "loads L line = Some data"
          and "\<forall>exs. \<exists>e. process_record data exs = Inl e"
        by blast
      then obtain e where "process_record data examples = Inl e" by blast
      with d True show ?thesis by simp
    qed
  next
    case False
    with Cons.prems have "line \<in> set ls" by simp
    then have "\<exists>e. read_loop L ls exs = Inl e" for exs
      by (rule Cons.IH)
    then show ?thesis
      by (auto split: option.splits sum.splits)
  qed
qed

section \<open>The run as a whole\<close>

lemma main_completes:
  assumes "fs SOURCE = Some text" and "read_loop L (splitlines L text) [] = Inr examples"
  shows "main L fs = (Inr (length examples), fs(OUT \<mapsto> write_lines L examples))"
  using assms by (simp add: main_def)

lemma main_error_keeps_files:
  assumes "main L fs = (Inl e, fs')"
  shows "fs' = fs"
  using assms by (auto simp: main_def split: option.splits sum.splits)

section \<open>The formatter's loop\<close>

lemma finetune_record_conversation:
  assumes "map_of kvs ''prompt'' = Some prompt"
    and "map_of kvs ''expected_template_id'' = Some template_id"
  shows "finetune_record (JObj kvs) = Inr (conversation prompt template_id)"
  using assms by (simp add: finetune_record_def conversation_def)

lemma finetune_loop_rows:
  assumes "\<forall>row \<in> set rows. \<exists>d. loads L (fst row) = Some (JObj d) \<and>
             map_of d ''prompt'' = Some (fst (snd row)) \<and>
             map_of d ''expected_template_id'' = Some (snd (snd row))"
  shows "finetune_loop L (map fst rows @ rest) out =
           finetune_loop L rest
             (out @ concat (map (\<lambda>row. dumps L (conversation (fst (snd row)) (snd (snd row))) @
                                        [CHR 0x0A]) rows))"
  using assms
proof (induction rows arbitrary: out)
  case Nil
  show ?case by simp
next
  case (Cons row rows)
  from Cons.prems obtain d where d: "loads L (fst row) = Some (JObj d)"
      and "map_of d ''prompt'' = Some (fst (snd row))"
      and "map_of d ''expected_template_id'' = Some (snd (snd row))"
    by auto
  then have r: "finetune_record (JObj d) = Inr (conversation (fst (snd row)) (snd (snd row)))"
    by (simp add: finetune_record_conversation)
  from Cons.prems have "\<forall>row \<in> set rows. \<exists>d. loads L (fst row) = Some (JObj d) \<and>
             map_of d ''prompt'' = Some (fst (snd row)) \<and>
             map_of d ''expected_template_id'' = Some (snd (snd row))"
    by simp
  then show ?case
    by (simp add: d r Cons.IH)
qed

lemma prepare_finetune_run:
  assumes "fs PROMPTS = Some text" and "finetune_loop L (splitlines L text) [] = (r, out)"
  shows "prepare_finetune L fs = (r, fs(OUTPUT \<mapsto> out))"
  using assms by (simp add: prepare_finetune_def PROMPTS_def OUTPUT_def)

section \<open>The claims\<close>

text \<open>
  C1. A record with at least one phrase (the list the script selects from
  \<^verbatim>\<open>user_phrases\<close> or \<^verbatim>\<open>keywords\<close>), at least one supported format and both required
  fields adds between 1 and 4 examples to \<^verbatim>\<open>examples\<close>, and the
  \<^verbatim>\<open>expected_template_id\<close> of each is the \<^verbatim>\<open>template_id\<close> value of the record itself,
  whatever that value is.
\<close>

theorem expander_one_to_four_examples:
  assumes "select_phrases (JObj kvs) = Inr (JArr (map JStr phrases))" and "phrases \<noteq> []"
    and "map_of kvs ''supported_formats'' = Some (JArr (map JStr fmts))" and "fmts \<noteq> []"
    and "map_of kvs ''template_id'' = Some tid" and "map_of kvs ''template_name'' = Some tname"
  shows "\<exists>exs. process_record (JObj kvs) examples = Inr (examples @ exs) \<and>
           1 \<le> length exs \<and> length exs \<le> 4 \<and>
           (\<forall>ex \<in> set exs. getitem ex ''expected_template_id'' = Inr tid)"
proof -
  obtain hints where h: "record_hints (JObj kvs) = Inr hints"
    using record_hints_strs [OF assms(3,4)] by simp
  let ?exs = "map (example_of kvs hints) (enumerate 0 (take 4 phrases))"
  have run: "process_record (JObj kvs) examples = Inr (examples @ ?exs)"
    using assms(5,6) by (simp add: process_record_strs [OF assms(1) h])
  have len: "length ?exs = min 4 (length phrases)"
    by simp
  have "1 \<le> length ?exs"
    using assms(2) unfolding len by (cases phrases) simp_all
  moreover have "length ?exs \<le> 4"
    unfolding len by simp
  moreover have "\<forall>ex \<in> set ?exs. getitem ex ''expected_template_id'' = Inr tid"
    using assms(5) by (auto simp: getitem_example_of lookup_def)
  ultimately show ?thesis
    using run by blast
qed

theorem expander_one_to_four_examples_witness:
  "\<exists>exs. process_record (JObj hero_record) [] = Inr ([] @ exs) \<and>
         1 \<le> length exs \<and> length exs \<le> 4 \<and>
         (\<forall>ex \<in> set exs. getitem ex ''expected_template_id'' = Inr (JStr ''t1''))"
  using expander_one_to_four_examples [of hero_record "[''make a square banner'']"
      "[''square'']" "JStr ''t1''" "JStr ''Hero''" "[]"]
  by (simp add: hero_record_def select_phrases_def)

text \<open>
  C2. On a record that is processed, the example at index \<open>i\<close> (among the first 4
  phrases) has the prompt \<open>hints[i] + " " + phrases[i]\<close> when \<open>i\<close> is below the
  length of the combined hint list, and \<open>phrases[i]\<close> alone otherwise: the hint at
  index \<open>i\<close> goes with the phrase at index \<open>i\<close> and with no other.
\<close>

theorem prompt_is_hint_then_phrase:
  assumes "select_phrases (JObj kvs) = Inr (JArr (map JStr phrases))"
    and "record_hints (JObj kvs) = Inr hints"
    and "map_of kvs ''template_id'' = Some tid" and "map_of kvs ''template_name'' = Some tname"
  shows "\<exists>exs. process_record (JObj kvs) examples = Inr (examples @ exs) \<and>
           length exs = min 4 (length phrases) \<and>
           (\<forall>i < length exs. getitem (exs ! i) ''prompt'' =
              Inr (JStr (if i < length hints then hints ! i @ '' '' @ phrases ! i
                         else phrases ! i)))"
  using process_record_prompts [OF assms(1,2), of examples] assms(3,4)
  by (simp add: hinted_def)

theorem prompt_is_hint_then_phrase_witness:
  "\<exists>exs. process_record (JObj cinema_record) [] = Inr ([] @ exs) \<and>
         length exs = min 4 (length [''launch teaser'', ''product reveal'']) \<and>
         (\<forall>i < length exs. getitem (exs ! i) ''prompt'' =
            Inr (JStr (if i < length [''generic format'']
                       then [''generic format''] ! i @ '' '' @
                            [''launch teaser'', ''product reveal''] ! i
                       else [''launch teaser'', ''product reveal''] ! i)))"
  using prompt_is_hint_then_phrase [of cinema_record "[''launch teaser'', ''product reveal'']"
      "[''generic format'']" "JStr ''t2''" "JStr ''Promo''" "[]"]
  by (simp add: cinema_record_def select_phrases_def record_hints_def select_formats_def
      py_or_def combined_hints_def FORMAT_HINTS_def)

text \<open>
  C3. From an example dictionary that has the keys \<^verbatim>\<open>prompt\<close> and
  \<^verbatim>\<open>expected_template_id\<close> the formatter builds one conversation of three turns, in the
  order system, user, assistant: the system content is \<open>prefix_system\<close>, the user
  content is the example's prompt and the assistant content its
  \<^verbatim>\<open>expected_template_id\<close>, both unchanged. Over lines that each decode to such an
  example (\<open>rows\<close> lists every line with its prompt and its template id), the loop
  ends without an error and has written exactly one conversation per line, in the order of
  the lines, each followed by a newline, and nothing else; that is the content the script
  leaves in the output file.
\<close>

theorem finetune_record_three_turns:
  assumes "map_of kvs ''prompt'' = Some prompt"
    and "map_of kvs ''expected_template_id'' = Some template_id"
    and "\<forall>row \<in> set rows. \<exists>d. loads L (fst row) = Some (JObj d) \<and>
           map_of d ''prompt'' = Some (fst (snd row)) \<and>
           map_of d ''expected_template_id'' = Some (snd (snd row))"
  shows "finetune_record (JObj kvs) =
           Inr (JObj [(''messages'',
                  JArr [JObj [(''role'', JStr ''system''), (''content'', JStr prefix_system)],
                        JObj [(''role'', JStr ''user''), (''content'', prompt)],
                        JObj [(''role'', JStr ''assistant''), (''content'', template_id)]])]) \<and>
         finetune_loop L (map fst rows) out =
           (Inr (),
            out @ concat (map (\<lambda>row. dumps L (JObj [(''messages'',
                  JArr [JObj [(''role'', JStr ''system''), (''content'', JStr prefix_system)],
                        JObj [(''role'', JStr ''user''), (''content'', fst (snd row))],
                        JObj [(''role'', JStr ''assistant''), (''content'', snd (snd row))]])])
                 @ [CHR 0x0A]) rows)) \<and>
         finetune_loop L (map fst rows @ rest) out =
           finetune_loop L rest
             (out @ concat (map (\<lambda>row. dumps L (JObj [(''messages'',
                  JArr [JObj [(''role'', JStr ''system''), (''content'', JStr prefix_system)],
                        JObj [(''role'', JStr ''user''), (''content'', fst (snd row))],
                        JObj [(''role'', JStr ''assistant''), (''content'', snd (snd row))]])])
                 @ [CHR 0x0A]) rows)) \<and>
         (fs PROMPTS = Some text \<longrightarrow> splitlines L text = map fst rows \<longrightarrow>
            prepare_finetune L fs =
              (Inr (),
               fs(OUTPUT \<mapsto> concat (map (\<lambda>row. dumps L (JObj [(''messages'',
                  JArr [JObj [(''role'', JStr ''system''), (''content'', JStr prefix_system)],
                        JObj [(''role'', JStr ''user''), (''content'', fst (snd row))],
                        JObj [(''role'', JStr ''assistant''), (''content'', snd (snd row))]])])
                 @ [CHR 0x0A]) rows))))"
proof -
  have step: "finetune_loop L (map fst rows @ rest') out' =
      finetune_loop L rest'
        (out' @ concat (map (\<lambda>row. dumps L (conversation (fst (snd row)) (snd (snd row))) @
                                   [CHR 0x0A]) rows))" for rest' out'
    by (rule finetune_loop_rows [OF assms(3)])
  have whole: "finetune_loop L (map fst rows) out' =
      (Inr (), out' @ concat (map (\<lambda>row. dumps L (conversation (fst (snd row)) (snd (snd row))) @
                                          [CHR 0x0A]) rows))" for out'
    using step [of "[]" out'] by simp
  have run: "prepare_finetune L fs =
      (Inr (), fs(OUTPUT \<mapsto> concat (map (\<lambda>row.
         dumps L (conversation (fst (snd row)) (snd (snd row))) @ [CHR 0x0A]) rows)))"
    if "fs PROMPTS = Some text" and "splitlines L text = map fst rows"
    using that whole [of "[]"] by (simp add: prepare_finetune_run)
  have one: "finetune_record (JObj kvs) = Inr (conversation prompt template_id)"
    by (rule finetune_record_conversation [OF assms(1,2)])
  from one whole [of out] step [of rest out] run show ?thesis
    unfolding conversation_def by blast
qed

theorem finetune_record_three_turns_witness:
  "finetune_record (JObj banner_example) =
     Inr (JObj [(''messages'',
            JArr [JObj [(''role'', JStr ''system''), (''content'', JStr prefix_system)],
                  JObj [(''role'', JStr ''user''),
                        (''content'', JStr ''format:square make a square banner'')],
                  JObj [(''role'', JStr ''assistant''), (''content'', JStr ''t1'')]])]) \<and>
   finetune_loop finetune_lib [''P'', ''Q''] [] =
     (Inr (), ''banner->t1'' @ [CHR 0x0A] @ ''teaser->t2'' @ [CHR 0x0A]) \<and>
   prepare_finetune finetune_lib [PROMPTS \<mapsto> ''PQ'', OUTPUT \<mapsto> ''stale''] =
     (Inr (), [PROMPTS \<mapsto> ''PQ'',
               OUTPUT \<mapsto> ''banner->t1'' @ [CHR 0x0A] @ ''teaser->t2'' @ [CHR 0x0A]])"
proof -
  let ?rows = "[(''P'', JStr ''format:square make a square banner'', JStr ''t1''),
                (''Q'', JStr ''generic format launch teaser'', JStr ''t2'')]"
  have k: "map_of banner_example ''prompt'' = Some (JStr ''format:square make a square banner'')"
      "map_of banner_example ''expected_template_id'' = Some (JStr ''t1'')"
    by (simp_all add: banner_example_def)
  have rows: "\<forall>row \<in> set ?rows. \<exists>d. loads finetune_lib (fst row) = Some (JObj d) \<and>
           map_of d ''prompt'' = Some (fst (snd row)) \<and>
           map_of d ''expected_template_id'' = Some (snd (snd row))"
    by (simp add: finetune_lib_def banner_example_def teaser_example_def)
  have src: "[PROMPTS \<mapsto> ''PQ'', OUTPUT \<mapsto> ''stale''] PROMPTS = Some ''PQ''"
    by (simp add: PROMPTS_def OUTPUT_def)
  have sp: "splitlines finetune_lib ''PQ'' = map fst ?rows"
    by (simp add: finetune_lib_def)
  have d: "dumps finetune_lib
             (conversation (JStr ''format:square make a square banner'') (JStr ''t1'')) =
             ''banner->t1''"
      "dumps finetune_lib (conversation (JStr ''generic format launch teaser'') (JStr ''t2'')) =
             ''teaser->t2''"
    by (simp_all add: finetune_lib_def conversation_def)
  note th = finetune_record_three_turns [OF k rows, of "[]" "[]" "[PROMPTS \<mapsto> ''PQ'', OUTPUT \<mapsto> ''stale'']" "''PQ''"]
  from th have a: "finetune_record (JObj banner_example) =
     Inr (JObj [(''messages'',
            JArr [JObj [(''role'', JStr ''system''), (''content'', JStr prefix_system)],
                  JObj [(''role'', JStr ''user''),
                        (''content'', JStr ''format:square make a square banner'')],
                  JObj [(''role'', JStr ''assistant''), (''content'', JStr ''t1'')]])])"
    by blast
  from th have b: "finetune_loop finetune_lib [''P'', ''Q''] [] =
     (Inr (), ''banner->t1'' @ [CHR 0x0A] @ ''teaser->t2'' @ [CHR 0x0A])"
    using d by (simp add: conversation_def del: finetune_loop.simps)
  from th src sp have c: "prepare_finetune finetune_lib [PROMPTS \<mapsto> ''PQ'', OUTPUT \<mapsto> ''stale''] =
     (Inr (), [PROMPTS \<mapsto> ''PQ'',
               OUTPUT \<mapsto> ''banner->t1'' @ [CHR 0x0A] @ ''teaser->t2'' @ [CHR 0x0A]])"
    using d by (simp add: conversation_def del: finetune_loop.simps)
  from a b c show ?thesis by blast
qed


text \<open>
  C4, as stated, fails: a record whose \<^verbatim>\<open>user_phrases\<close> is present as the empty list and
  whose \<^verbatim>\<open>keywords\<close> is \<open>["pricing"]\<close> yields an example built from the keyword.
\<close>

theorem keywords_used_when_user_phrases_empty:
  "process_record
     (JObj [(''template_id'', JStr ''t1''), (''template_name'', JStr ''Hero''),
            (''user_phrases'', JArr []), (''keywords'', JArr [JStr ''pricing''])]) [] =
   Inr [JObj [(''prompt'', JStr ''format:landscape pricing''),
              (''expected_template_id'', JStr ''t1''),
              (''expected_template_name'', JStr ''Hero''),
              (''db_id'', JNull)]]"
  by (simp add: process_record_def select_formats_def select_phrases_def py_or_def
      combined_hints_def FORMAT_HINTS_def VARIANTS_PER_TEMPLATE_def make_example_def str_join_def)

text \<open>
  C4, amended. When \<^verbatim>\<open>user_phrases\<close> is present and true in Python's sense (a non-empty
  list), it is the phrase source, and \<^verbatim>\<open>keywords\<close> is not used: two records that differ
  at most in \<^verbatim>\<open>keywords\<close> give the same result.
\<close>

theorem keywords_unused_when_user_phrases_nonempty:
  assumes "map_of kvs ''user_phrases'' = Some up" and "truthy up"
    and "\<forall>k. k \<noteq> ''keywords'' \<longrightarrow> map_of kvs' k = map_of kvs k"
  shows "select_phrases (JObj kvs) = Inr up \<and>
         process_record (JObj kvs') examples = process_record (JObj kvs) examples"
proof -
  have up': "map_of kvs' ''user_phrases'' = Some up"
    using assms(1,3) by simp
  have sf: "select_formats (JObj kvs') = select_formats (JObj kvs)"
    using assms(3) by (simp add: select_formats_def)
  have ex: "expand_phrases (JObj kvs') hints idx ps exs =
              expand_phrases (JObj kvs) hints idx ps exs"
    for hints idx ps exs
    using assms(3) by (intro expand_phrases_cong) simp_all
  show ?thesis
    by (simp add: process_record_def sf ex
        select_phrases_user [OF assms(1,2)] select_phrases_user [OF up' assms(2)]
        split: sum.splits)
qed

theorem keywords_unused_when_user_phrases_nonempty_witness:
  "select_phrases (JObj hero_record) = Inr (JArr [JStr ''make a square banner'']) \<and>
   process_record (JObj ((''keywords'', JArr [JStr ''pricing'']) # hero_record)) [] =
     process_record (JObj hero_record) []"
  using keywords_unused_when_user_phrases_nonempty [of hero_record
      "JArr [JStr ''make a square banner'']"
      "(''keywords'', JArr [JStr ''pricing'']) # hero_record" "[]"]
  by (simp add: hero_record_def)

text \<open>
  C5, as stated, fails: with one format there are three hints, so the fourth phrase gets
  none, and when that phrase is the empty string the prompt of its example is empty.
\<close>

theorem empty_prompt_emitted:
  "process_record
     (JObj [(''template_id'', JStr ''t1''), (''template_name'', JStr ''Hero''),
            (''supported_formats'', JArr [JStr ''square'']),
            (''user_phrases'', JArr [JStr ''a'', JStr ''b'', JStr ''c'', JStr []]),
            (''db_id'', JInt 7)]) [] =
   Inr [JObj [(''prompt'', JStr ''format:square a''), (''expected_template_id'', JStr ''t1''),
              (''expected_template_name'', JStr ''Hero''), (''db_id'', JInt 7)],
        JObj [(''prompt'', JStr ''social square b''), (''expected_template_id'', JStr ''t1''),
              (''expected_template_name'', JStr ''Hero''), (''db_id'', JInt 7)],
        JObj [(''prompt'', JStr ''1:1 canvas c''), (''expected_template_id'', JStr ''t1''),
              (''expected_template_name'', JStr ''Hero''), (''db_id'', JInt 7)],
        JObj [(''prompt'', JStr []), (''expected_template_id'', JStr ''t1''),
              (''expected_template_name'', JStr ''Hero''), (''db_id'', JInt 7)]]"
  by (simp add: process_record_def select_formats_def select_phrases_def py_or_def
      combined_hints_def FORMAT_HINTS_def VARIANTS_PER_TEMPLATE_def make_example_def str_join_def)

text \<open>
  C5, amended. The prompt of the example at index \<open>i\<close> is a string, and it is empty
  exactly when the phrase at \<open>i\<close> is empty and no hint exists at \<open>i\<close>; so every
  prompt built from a non-empty phrase, or at an index below the number of hints, is
  non-empty.
\<close>

theorem prompt_empty_only_without_hint_and_phrase:
  assumes "select_phrases (JObj kvs) = Inr (JArr (map JStr phrases))"
    and "record_hints (JObj kvs) = Inr hints"
    and "map_of kvs ''template_id'' = Some tid" and "map_of kvs ''template_name'' = Some tname"
  shows "\<exists>exs. process_record (JObj kvs) examples = Inr (examples @ exs) \<and>
           length exs = min 4 (length phrases) \<and>
           (\<forall>i < length exs. \<exists>prompt. getitem (exs ! i) ''prompt'' = Inr (JStr prompt) \<and>
              (prompt = [] \<longleftrightarrow> phrases ! i = [] \<and> length hints \<le> i))"
proof -
  obtain exs where run: "process_record (JObj kvs) examples = Inr (examples @ exs)"
      and len: "length exs = min 4 (length phrases)"
      and prompts: "\<forall>i < length exs.
        getitem (exs ! i) ''prompt'' = Inr (JStr (hinted hints i (phrases ! i)))"
    using process_record_prompts [OF assms(1,2), of examples] assms(3,4) by auto
  have "\<exists>prompt. getitem (exs ! i) ''prompt'' = Inr (JStr prompt) \<and>
          (prompt = [] \<longleftrightarrow> phrases ! i = [] \<and> length hints \<le> i)"
    if "i < length exs" for i
    using prompts that by (simp add: hinted_empty)
  with run len show ?thesis by blast
qed

theorem prompt_empty_only_without_hint_and_phrase_witness:
  "\<exists>exs. process_record (JObj hero_record) [] = Inr ([] @ exs) \<and>
         length exs = min 4 (length [''make a square banner'']) \<and>
         (\<forall>i < length exs. \<exists>prompt. getitem (exs ! i) ''prompt'' = Inr (JStr prompt) \<and>
            (prompt = [] \<longleftrightarrow> [''make a square banner''] ! i = [] \<and>
               length [''format:square'', ''social square'', ''1:1 canvas''] \<le> i))"
  using prompt_empty_only_without_hint_and_phrase [of hero_record "[''make a square banner'']"
      "[''format:square'', ''social square'', ''1:1 canvas'']" "JStr ''t1''" "JStr ''Hero''" "[]"]
  by (simp add: hero_record_def select_phrases_def record_hints_def select_formats_def
      py_or_def combined_hints_def FORMAT_HINTS_def)

text \<open>
  C6. When \<^verbatim>\<open>supported_formats\<close> holds at least one value and none of its values is
  \<open>landscape\<close>, \<open>portrait\<close> or \<open>square\<close>, the combined hint list is the single hint
  \<open>generic format\<close>; the prompts of the record are then \<open>generic format\<close> and the
  first phrase, and each later phrase alone, so no text of a format value reaches a prompt.
\<close>

theorem unrecognized_formats_generic_hint:
  assumes "map_of kvs ''supported_formats'' = Some (JArr (map JStr fmts))" and "fmts \<noteq> []"
    and "\<forall>f \<in> set fmts. f \<notin> {''landscape'', ''portrait'', ''square''}"
  shows "record_hints (JObj kvs) = Inr [''generic format''] \<and>
         (\<forall>phrases tid tname examples.
            select_phrases (JObj kvs) = Inr (JArr (map JStr phrases)) \<longrightarrow>
            map_of kvs ''template_id'' = Some tid \<longrightarrow>
            map_of kvs ''template_name'' = Some tname \<longrightarrow>
            (\<exists>exs. process_record (JObj kvs) examples = Inr (examples @ exs) \<and>
               length exs = min 4 (length phrases) \<and>
               (\<forall>i < length exs. getitem (exs ! i) ''prompt'' =
                  Inr (JStr (if i = 0 then ''generic format '' @ phrases ! i else phrases ! i)))))"
proof -
  have "concat (map hints_of_name fmts) = []"
    using assms(3) by (simp add: hints_of_name_unknown)
  then have h: "record_hints (JObj kvs) = Inr [''generic format'']"
    by (simp add: record_hints_strs [OF assms(1,2)])
  have "hinted [''generic format''] i p = (if i = 0 then ''generic format '' @ p else p)" for i p
    by (simp add: hinted_def)
  with process_record_prompts [OF _ h] h show ?thesis
    by simp
qed

theorem unrecognized_formats_generic_hint_witness:
  "record_hints (JObj cinema_record) = Inr [''generic format''] \<and>
   (\<exists>exs. process_record (JObj cinema_record) [] = Inr ([] @ exs) \<and>
      length exs = min 4 (length [''launch teaser'', ''product reveal'']) \<and>
      (\<forall>i < length exs. getitem (exs ! i) ''prompt'' =
         Inr (JStr (if i = 0 then ''generic format '' @ [''launch teaser'', ''product reveal''] ! i
                    else [''launch teaser'', ''product reveal''] ! i))))"
proof -
  have f: "map_of cinema_record ''supported_formats'' = Some (JArr (map JStr [''cinema'']))"
    by (simp add: cinema_record_def)
  have n: "[''cinema''] \<noteq> []"
    by simp
  have u: "\<forall>f \<in> set [''cinema'']. f \<notin> {''landscape'', ''portrait'', ''square''}"
    by simp
  have p: "select_phrases (JObj cinema_record) =
             Inr (JArr (map JStr [''launch teaser'', ''product reveal'']))"
    by (simp add: cinema_record_def select_phrases_def)
  have t: "map_of cinema_record ''template_id'' = Some (JStr ''t2'')"
      "map_of cinema_record ''template_name'' = Some (JStr ''Promo'')"
    by (simp_all add: cinema_record_def)
  from unrecognized_formats_generic_hint [OF f n u] p t show ?thesis
    by blast
qed

text \<open>
  C7. When \<^verbatim>\<open>supported_formats\<close> is absent or the empty list, \<^verbatim>\<open>formats\<close> is
  \<open>['landscape']\<close>, the hints of the record are the three landscape hints, and the
  prompts of its first three phrases start with them, in that order.
\<close>

theorem missing_formats_default_landscape:
  assumes "map_of kvs ''supported_formats'' = None \<or>
           map_of kvs ''supported_formats'' = Some (JArr [])"
  shows "select_formats (JObj kvs) = Inr (JArr [JStr ''landscape'']) \<and>
         record_hints (JObj kvs) =
           Inr [''format:landscape'', ''desktop layout'', ''wide hero''] \<and>
         (\<forall>phrases tid tname examples.
            select_phrases (JObj kvs) = Inr (JArr (map JStr phrases)) \<longrightarrow>
            map_of kvs ''template_id'' = Some tid \<longrightarrow>
            map_of kvs ''template_name'' = Some tname \<longrightarrow>
            (\<exists>exs. process_record (JObj kvs) examples = Inr (examples @ exs) \<and>
               length exs = min 4 (length phrases) \<and>
               (\<forall>i < length exs. getitem (exs ! i) ''prompt'' =
                  Inr (JStr (if i < 3
                             then [''format:landscape'', ''desktop layout'', ''wide hero''] ! i @
                                  '' '' @ phrases ! i
                             else phrases ! i)))))"
proof -
  have f: "select_formats (JObj kvs) = Inr (JArr [JStr ''landscape''])"
    using assms by (auto simp: select_formats_def py_or_def)
  have h: "record_hints (JObj kvs) = Inr [''format:landscape'', ''desktop layout'', ''wide hero'']"
    by (rule record_hints_default [OF assms])
  have "hinted [''format:landscape'', ''desktop layout'', ''wide hero''] i p =
          (if i < 3 then [''format:landscape'', ''desktop layout'', ''wide hero''] ! i @ '' '' @ p
           else p)" for i p
    by (simp add: hinted_def)
  with process_record_prompts [OF _ h] f h show ?thesis
    by simp
qed

theorem missing_formats_default_landscape_witness:
  "select_formats (JObj plain_record) = Inr (JArr [JStr ''landscape'']) \<and>
   record_hints (JObj plain_record) =
     Inr [''format:landscape'', ''desktop layout'', ''wide hero''] \<and>
   (\<exists>exs. process_record (JObj plain_record) [] = Inr ([] @ exs) \<and>
      length exs = min 4 (length [''intro'', ''outro'', ''logo sting'', ''lower third'', ''credits'']) \<and>
      (\<forall>i < length exs. getitem (exs ! i) ''prompt'' =
         Inr (JStr (if i < 3
                    then [''format:landscape'', ''desktop layout'', ''wide hero''] ! i @ '' '' @
                         [''intro'', ''outro'', ''logo sting'', ''lower third'', ''credits''] ! i
                    else [''intro'', ''outro'', ''logo sting'', ''lower third'', ''credits''] ! i))))"
proof -
  have a: "map_of plain_record ''supported_formats'' = None \<or>
           map_of plain_record ''supported_formats'' = Some (JArr [])"
    by (simp add: plain_record_def)
  have p: "select_phrases (JObj plain_record) =
             Inr (JArr (map JStr [''intro'', ''outro'', ''logo sting'', ''lower third'', ''credits'']))"
    by (simp add: plain_record_def select_phrases_def)
  have t: "map_of plain_record ''template_id'' = Some (JStr ''t5'')"
      "map_of plain_record ''template_name'' = Some (JStr ''Plain'')"
    by (simp_all add: plain_record_def)
  from missing_formats_default_landscape [OF a] p t show ?thesis
    by blast
qed

text \<open>
  C8. A record in which \<^verbatim>\<open>user_phrases\<close> and \<^verbatim>\<open>keywords\<close> are each absent or the empty
  list leaves \<^verbatim>\<open>examples\<close> as it is and raises nothing; the loop goes on with the next
  line.
\<close>

theorem record_without_phrases_skipped:
  assumes "map_of kvs ''user_phrases'' = None \<or> map_of kvs ''user_phrases'' = Some (JArr [])"
    and "map_of kvs ''keywords'' = None \<or> map_of kvs ''keywords'' = Some (JArr [])"
  shows "process_record (JObj kvs) examples = Inr examples \<and>
         (loads L line = Some (JObj kvs) \<longrightarrow>
            read_loop L (line # rest) examples = read_loop L rest examples)"
proof -
  have "process_record (JObj kvs) examples = Inr examples"
    using select_phrases_none [OF assms] by (simp add: process_record_skip)
  then show ?thesis by simp
qed

theorem record_without_phrases_skipped_witness:
  "process_record (JObj silent_record) [] = Inr [] \<and>
   read_loop sample_lib [''C'', ''A''] [] = read_loop sample_lib [''A''] []"
  using record_without_phrases_skipped [of silent_record "[]" sample_lib "''C''" "[''A'']"]
  by (simp add: silent_record_def sample_lib_def)

text \<open>
  C9. A record that is not skipped (its phrases are true in Python's sense) and lacks
  \<^verbatim>\<open>template_id\<close> or \<^verbatim>\<open>template_name\<close> raises, and so does the loop over any lines
  among which one decodes to it; a record that lacks them and has no phrases is skipped
  without an error.
\<close>

theorem missing_required_field_aborts:
  assumes "select_phrases (JObj kvs) = Inr phrases"
    and "map_of kvs ''template_id'' = None \<or> map_of kvs ''template_name'' = None"
  shows "if truthy phrases
         then (\<exists>e. process_record (JObj kvs) examples = Inl e) \<and>
              (\<forall>L lines exs line. line \<in> set lines \<longrightarrow> loads L line = Some (JObj kvs) \<longrightarrow>
                 (\<exists>e. read_loop L lines exs = Inl e))
         else process_record (JObj kvs) examples = Inr examples"
proof (cases "truthy phrases")
  case True
  have abort: "\<exists>e. process_record (JObj kvs) exs = Inl e" for exs
    using assms(1) True assms(2) by (rule process_record_missing)
  have "\<exists>e. read_loop L lines exs = Inl e"
    if "line \<in> set lines" and "loads L line = Some (JObj kvs)" for L lines exs line
    using that(1)
  proof (rule read_loop_aborts)
    show "loads L line = None \<or>
          (\<exists>data. loads L line = Some data \<and> (\<forall>exs. \<exists>e. process_record data exs = Inl e))"
      using that(2) abort by blast
  qed
  with True abort show ?thesis by simp
next
  case False
  with assms(1) show ?thesis by (simp add: process_record_skip)
qed

theorem missing_required_field_aborts_witness:
  "(\<exists>e. process_record (JObj nameless_record) [] = Inl e) \<and>
   (\<exists>e. read_loop sample_lib [''A'', ''B'', ''A''] [] = Inl e) \<and>
   process_record (JObj [(''user_phrases'', JArr [])]) [] = Inr []"
proof -
  have p: "select_phrases (JObj nameless_record) = Inr (JArr [JStr ''pricing table''])"
    by (simp add: nameless_record_def select_phrases_def)
  have m: "map_of nameless_record ''template_id'' = None \<or>
           map_of nameless_record ''template_name'' = None"
    by (simp add: nameless_record_def)
  have l: "''B'' \<in> set [''A'', ''B'', ''A'']"
      "loads sample_lib ''B'' = Some (JObj nameless_record)"
    by (simp_all add: sample_lib_def)
  have q: "select_phrases (JObj [(''user_phrases'', JArr [])]) = Inr (JArr [])"
    by (simp add: select_phrases_def py_or_def)
  have k: "map_of [(''user_phrases'', JArr [])] ''template_id'' = None \<or>
           map_of [(''user_phrases'', JArr [])] ''template_name'' = None"
    by simp
  have tr: "truthy (JArr [JStr ''pricing table''])"
    by simp
  have "(\<exists>e. process_record (JObj nameless_record) [] = Inl e) \<and>
        (\<forall>L lines exs line. line \<in> set lines \<longrightarrow>
           loads L line = Some (JObj nameless_record) \<longrightarrow>
           (\<exists>e. read_loop L lines exs = Inl e))"
    using missing_required_field_aborts [OF p m, of "[]"] unfolding if_P [OF tr] .
  with l have "(\<exists>e. process_record (JObj nameless_record) [] = Inl e) \<and>
        (\<exists>e. read_loop sample_lib [''A'', ''B'', ''A''] [] = Inl e)"
    by blast
  moreover from missing_required_field_aborts [OF q k, of "[]"]
  have "process_record (JObj [(''user_phrases'', JArr [])]) [] = Inr []"
    by simp
  ultimately show ?thesis by blast
qed

text \<open>
  C10. \<^verbatim>\<open>main\<close> writes the destination only after the loop over all lines has ended
  without an exception. When a line of the source fails to decode, or decodes to a record
  that is not skipped and lacks \<^verbatim>\<open>template_id\<close> or \<^verbatim>\<open>template_name\<close>, the run ends with
  an error and every file, the destination among them, is as it was.
\<close>

theorem main_abort_leaves_files:
  assumes "fs SOURCE = Some text" and "line \<in> set (splitlines L text)"
    and "loads L line = None \<or>
         (\<exists>kvs phrases. loads L line = Some (JObj kvs) \<and>
            select_phrases (JObj kvs) = Inr phrases \<and> truthy phrases \<and>
            (map_of kvs ''template_id'' = None \<or> map_of kvs ''template_name'' = None))"
  shows "\<exists>e. main L fs = (Inl e, fs)"
proof -
  have "loads L line = None \<or>
        (\<exists>data. loads L line = Some data \<and> (\<forall>exs. \<exists>e. process_record data exs = Inl e))"
    using assms(3) process_record_missing by blast
  with assms(2) obtain e where "read_loop L (splitlines L text) [] = Inl e"
    using read_loop_aborts by blast
  with assms(1) show ?thesis by (simp add: main_def)
qed

theorem main_abort_leaves_files_witness:
  "(\<exists>e. main sample_lib [SOURCE \<mapsto> ''AX'', OUT \<mapsto> ''old''] =
          (Inl e, [SOURCE \<mapsto> ''AX'', OUT \<mapsto> ''old''])) \<and>
   (\<exists>e. main sample_lib [SOURCE \<mapsto> ''AB'', OUT \<mapsto> ''old''] =
          (Inl e, [SOURCE \<mapsto> ''AB'', OUT \<mapsto> ''old'']))"
proof -
  have s: "[SOURCE \<mapsto> t, OUT \<mapsto> ''old''] SOURCE = Some t" for t
    by (simp add: SOURCE_def OUT_def)
  have x: "''X'' \<in> set (splitlines sample_lib ''AX'')" "loads sample_lib ''X'' = None"
    by (simp_all add: sample_lib_def)
  have b: "''B'' \<in> set (splitlines sample_lib ''AB'')"
      "loads sample_lib ''B'' = Some (JObj nameless_record)"
      "select_phrases (JObj nameless_record) = Inr (JArr [JStr ''pricing table''])"
      "truthy (JArr [JStr ''pricing table''])"
      "map_of nameless_record ''template_name'' = None"
    by (simp_all add: sample_lib_def nameless_record_def select_phrases_def)
  have "\<exists>e. main sample_lib [SOURCE \<mapsto> ''AX'', OUT \<mapsto> ''old''] =
          (Inl e, [SOURCE \<mapsto> ''AX'', OUT \<mapsto> ''old''])"
    using main_abort_leaves_files [of "[SOURCE \<mapsto> ''AX'', OUT \<mapsto> ''old'']" "''AX''"
        "''X''" sample_lib] s x
    by blast
  moreover have "\<exists>e. main sample_lib [SOURCE \<mapsto> ''AB'', OUT \<mapsto> ''old''] =
          (Inl e, [SOURCE \<mapsto> ''AB'', OUT \<mapsto> ''old''])"
    using main_abort_leaves_files [of "[SOURCE \<mapsto> ''AB'', OUT \<mapsto> ''old'']" "''AB''"
        "''B''" sample_lib] s b
    by blast
  ultimately show ?thesis by blast
qed

end
